theory Spec2Isabelle
  imports Main "HOL-Library.Word"
begin

section \<open>JavaScript strings\<close>

text \<open>
  A JavaScript string is a sequence of 16-bit code units. The regular expressions of the
  program carry no \<open>u\<close> flag, so they work on code units, too.
\<close>

type_synonym jschar = "16 word"
type_synonym jsstring = "jschar list"

definition lit :: "string \<Rightarrow> jsstring" where
  \<comment> \<open>an ASCII string literal of the source\<close>
  "lit s = map of_char s"

definition isLineTerminator :: "jschar \<Rightarrow> bool" where
  \<comment> \<open>LF, CR, LS, PS: the code units that \<open>.\<close> does not match\<close>
  "isLineTerminator c = (c = 0x0A \<or> c = 0x0D \<or> c = 0x2028 \<or> c = 0x2029)"

definition isWhiteSpace :: "jschar \<Rightarrow> bool" where
  \<comment> \<open>WhiteSpace and LineTerminator of ECMAScript: what \<open>\s\<close> matches and \<open>trim\<close> strips\<close>
  "isWhiteSpace c =
     (c = 0x09 \<or> c = 0x0A \<or> c = 0x0B \<or> c = 0x0C \<or> c = 0x0D \<or> c = 0x20 \<or> c = 0xA0
      \<or> c = 0x1680 \<or> (0x2000 \<le> c \<and> c \<le> 0x200A) \<or> c = 0x2028 \<or> c = 0x2029
      \<or> c = 0x202F \<or> c = 0x205F \<or> c = 0x3000 \<or> c = 0xFEFF)"

definition trim :: "jsstring \<Rightarrow> jsstring" where
  \<comment> \<open>\<open>String.prototype.trim\<close>\<close>
  "trim s = rev (dropWhile isWhiteSpace (rev (dropWhile isWhiteSpace s)))"

fun join :: "jsstring \<Rightarrow> jsstring list \<Rightarrow> jsstring" where
  \<comment> \<open>\<open>Array.prototype.join\<close> on an array of strings\<close>
  "join sep [] = []"
| "join sep [x] = x"
| "join sep (x # y # ys) = x @ sep @ join sep (y # ys)"

subsection \<open>The regular expressions of the program\<close>

text \<open>
  The patterns of the source are sequences of single code units and of quantified
  character classes, with alternatives at top level only. \<open>matchSeq\<close> is the backtracking
  matcher for them, anchored at the start of its argument: it returns the text after the
  match. \<open>Star\<close> is greedy (\<open>[..]*\<close>), \<open>Lazy\<close> is \<open>[..]*?\<close>, \<open>Plus\<close> is \<open>[..]+\<close>.
\<close>

datatype atom = Ch jschar | Star "jschar \<Rightarrow> bool" | Lazy "jschar \<Rightarrow> bool" | Plus "jschar \<Rightarrow> bool"

type_synonym regex = "atom list list"

fun matchSeq :: "atom list \<Rightarrow> jsstring \<Rightarrow> jsstring option" where
  "matchSeq [] s = Some s"
| "matchSeq (Ch c # as) [] = None"
| "matchSeq (Ch c # as) (x # xs) = (if x = c then matchSeq as xs else None)"
| "matchSeq (Star p # as) [] = matchSeq as []"
| "matchSeq (Star p # as) (x # xs) =
     (if p x
      then (case matchSeq (Star p # as) xs of Some r \<Rightarrow> Some r | None \<Rightarrow> matchSeq as (x # xs))
      else matchSeq as (x # xs))"
| "matchSeq (Lazy p # as) [] = matchSeq as []"
| "matchSeq (Lazy p # as) (x # xs) =
     (case matchSeq as (x # xs) of
        Some r \<Rightarrow> Some r
      | None \<Rightarrow> (if p x then matchSeq (Lazy p # as) xs else None))"
| "matchSeq (Plus p # as) [] = None"
| "matchSeq (Plus p # as) (x # xs) = (if p x then matchSeq (Star p # as) xs else None)"

fun matchAlt :: "regex \<Rightarrow> jsstring \<Rightarrow> jsstring option" where
  "matchAlt [] s = None"
| "matchAlt (a # as) s = (case matchSeq a s of Some r \<Rightarrow> Some r | None \<Rightarrow> matchAlt as s)"

text \<open>
  \<open>String.prototype.replace\<close> with a global pattern and a constant replacement: the
  leftmost match is replaced and the search goes on after it; after an empty match the
  next code unit is copied.
\<close>

fun replaceAll :: "regex \<Rightarrow> jsstring \<Rightarrow> jsstring \<Rightarrow> jsstring" where
  "replaceAll r rep [] = (case matchAlt r [] of Some _ \<Rightarrow> rep | None \<Rightarrow> [])"
| "replaceAll r rep (c # cs) =
     (case matchAlt r (c # cs) of
        None \<Rightarrow> c # replaceAll r rep cs
      | Some rest \<Rightarrow>
          (if length rest \<le> length cs then rep @ replaceAll r rep rest
           else rep @ c # replaceAll r rep cs))"

text \<open>
  \<open>String.prototype.split\<close> with a pattern and no limit. \<open>tok\<close> is the text between the
  end of the last separator (\<open>p\<close>) and the position tried (\<open>q\<close>); an empty match at
  \<open>p\<close> does not split.
\<close>

fun splitLoop :: "regex \<Rightarrow> jsstring \<Rightarrow> jsstring \<Rightarrow> jsstring list" where
  "splitLoop r tok [] = [tok]"
| "splitLoop r tok (c # cs) =
     (case matchAlt r (c # cs) of
        None \<Rightarrow> splitLoop r (tok @ [c]) cs
      | Some rest \<Rightarrow>
          (if length rest \<le> length cs then tok # splitLoop r [] rest
           else if tok = [] then splitLoop r [c] cs
           else tok # splitLoop r [c] cs))"

definition split :: "regex \<Rightarrow> jsstring \<Rightarrow> jsstring list" where
  "split r s = (if s = [] then (case matchAlt r [] of Some _ \<Rightarrow> [] | None \<Rightarrow> [[]])
                else splitLoop r [] s)"

definition reMarkers :: regex where
  \<comment> \<open>\<open>/<!HS>|<!HE>/\<close>\<close>
  "reMarkers = [map Ch (lit ''<!HS>''), map Ch (lit ''<!HE>'')]"

definition reH4 :: regex where
  \<comment> \<open>\<open>/<h4[^>]*>.*?<\/h4>/\<close>\<close>
  "reH4 = [map Ch (lit ''<h4'') @ [Star (\<lambda>c. c \<noteq> 0x3E), Ch 0x3E, Lazy (\<lambda>c. \<not> isLineTerminator c)]
           @ map Ch (lit ''</h4>'')]"

definition reNewlines :: regex where
  \<comment> \<open>\<open>/\n+/\<close>\<close>
  "reNewlines = [[Plus (\<lambda>c. c = 0x0A)]]"

definition reComma :: regex where
  \<comment> \<open>\<open>/,/\<close>\<close>
  "reComma = [[Ch 0x2C]]"

definition reSpaces :: regex where
  \<comment> \<open>\<open>/\s+/\<close>\<close>
  "reSpaces = [[Plus isWhiteSpace]]"

section \<open>Text cleaning and keyword formatting\<close>

definition cleanText :: "jsstring \<Rightarrow> jsstring" where
  \<comment> \<open>the same in \<open>src/app.js\<close> and \<open>src/unnamed/part_001\<close>\<close>
  "cleanText text =
     replaceAll reNewlines [0x0A] (replaceAll reH4 [] (replaceAll reMarkers [] text))"

definition formatKeywords_app :: "jsstring \<Rightarrow> jsstring" where
  \<comment> \<open>\<open>formatKeywords\<close> of \<open>src/app.js\<close>\<close>
  "formatKeywords_app keywords =
     (let words = filter (\<lambda>word. trim word \<noteq> []) (split reSpaces keywords)
      in join (lit '' '') (take 2 words))"

definition formatKeywords_p1 :: "jsstring \<Rightarrow> jsstring" where
  \<comment> \<open>\<open>formatKeywords\<close> of \<open>src/unnamed/part_001\<close>\<close>
  "formatKeywords_p1 keywords =
     (let words = split reSpaces (trim (replaceAll reComma [] keywords))
      in join (lit '' '') (take 2 words))"

section \<open>Errors, console output and awaited results\<close>

datatype err = TypeError | ReferenceError | URIError | ProviderError nat
  \<comment> \<open>\<open>ProviderError n\<close>: an error thrown or reported by an external service\<close>

datatype logEntry = ConsoleError jsstring err
  \<comment> \<open>\<open>console.error(label, error)\<close>; the \<open>console.log\<close> lines are not recorded\<close>

text \<open>
  What awaiting a call gives: the console lines it wrote, and its rejection (\<open>Inl\<close>) or
  its value (\<open>Inr\<close>).
\<close>

type_synonym 'a async = "logEntry list \<times> (err + 'a)"

definition resolve :: "'a \<Rightarrow> 'a async" where
  "resolve x = ([], Inr x)"

definition reject :: "err \<Rightarrow> 'a async" where
  "reject e = ([], Inl e)"

definition consoleError :: "jsstring \<Rightarrow> err \<Rightarrow> unit async" where
  "consoleError label e = ([ConsoleError label e], Inr ())"

definition await :: "'a async \<Rightarrow> ('a \<Rightarrow> 'b async) \<Rightarrow> 'b async" where
  "await m f =
     (case m of
        (l, Inl e) \<Rightarrow> (l, Inl e)
      | (l, Inr x) \<Rightarrow> (case f x of (l', r) \<Rightarrow> (l @ l', r)))"

definition tryCatch :: "'a async \<Rightarrow> (err \<Rightarrow> 'a async) \<Rightarrow> 'a async" where
  "tryCatch m handler =
     (case m of
        (l, Inl e) \<Rightarrow> (case handler e of (l', r) \<Rightarrow> (l @ l', r))
      | (l, Inr x) \<Rightarrow> (l, Inr x))"

section \<open>Data\<close>

record Article =
  title :: jsstring
  article :: jsstring
  date :: jsstring
  link :: jsstring

record 'v EmbeddedArticle = Article +
  embedding :: 'v

text \<open>
  A record of the news search response. A field is \<open>None\<close> when it is absent or not a
  string: \<open>text.replace\<close> raises a TypeError on it. \<open>DOCID\<close> is the text that the
  template literal renders.
\<close>

record rawArticle =
  TITLE :: "jsstring option"
  REDUCE_CONTENTS :: "jsstring option"
  DATE :: "jsstring option"
  DOCID :: jsstring

datatype news_sbs = NoList | NotAnArray | Items "rawArticle list"
  \<comment> \<open>\<open>response.data.news_sbs\<close>: falsy, truthy without \<open>map\<close>, or an array of records\<close>

datatype newsData = NoData | Data news_sbs
  \<comment> \<open>\<open>response.data\<close>: null or undefined, or an object\<close>

datatype doc = Doc (doc_link: "jsstring option")
  \<comment> \<open>a row of \<open>match_documents\<close>; \<open>doc.link\<close> may be missing\<close>

record 'd reply =
  data :: 'd
  error :: "err option"

datatype userRequest = UserRequest (utterance: "jsstring option")
  \<comment> \<open>\<open>req.body.userRequest\<close>, with \<open>None\<close> for a missing \<open>utterance\<close>\<close>

datatype body = Body (userRequest: "userRequest option")
  \<comment> \<open>\<open>req.body\<close>, with \<open>None\<close> for a missing \<open>userRequest\<close>\<close>

datatype responseBody =
    Envelope jsstring
      \<comment> \<open>\<open>{version: "2.0", template: {outputs: [{simpleText: {text}}]}}\<close>\<close>
  | ErrorObject jsstring
      \<comment> \<open>\<open>{error}\<close>\<close>

record response =
  status :: nat
  sent :: responseBody

section \<open>The external services\<close>

text \<open>
  The program reaches the language model, the news search, the embedding service and the
  vector store over the network. A world gives the outcome of each call: \<open>Inl\<close> when the
  awaited promise rejects, \<open>Inr\<close> with what the program reads from the response
  otherwise.
  \<^item> \<open>axios_post prompt\<close>: \<open>response.data.content[0].text\<close>, \<open>None\<close> when it cannot be
    read or is not a string;
  \<^item> \<open>axios_get url\<close>: \<open>response.data\<close>;
  \<^item> \<open>embeddings_create_doc i input\<close>: the \<open>i\<close>-th call of a batch, with the time at which
    it settles and \<open>response.data[0].embedding\<close> (\<open>None\<close> when \<open>response.data[0]\<close> cannot be
    read);
  \<^item> \<open>embeddings_create_query input\<close>: the call for the utterance;
  \<^item> \<open>supabase_insert rows\<close>: the \<open>{data, error}\<close> of the bulk insert;
  \<^item> \<open>supabase_rpc query_embedding match_count\<close>: the \<open>{data, error}\<close> of
    \<open>match_documents\<close> (the threshold is the constant 0.78).
\<close>

record 'v world =
  axios_post :: "jsstring \<Rightarrow> err + jsstring option"
  axios_get :: "jsstring \<Rightarrow> err + newsData"
  embeddings_create_doc :: "nat \<Rightarrow> jsstring \<Rightarrow> nat \<times> (err + 'v option)"
  embeddings_create_query :: "jsstring option \<Rightarrow> err + 'v option"
  supabase_insert :: "'v EmbeddedArticle list \<Rightarrow> err + ('v EmbeddedArticle list option) reply"
  supabase_rpc :: "'v \<Rightarrow> nat \<Rightarrow> err + (doc list option) reply"

section \<open>Keyword extraction\<close>

definition toString :: "jsstring option \<Rightarrow> jsstring" where
  \<comment> \<open>a value inside a template literal\<close>
  "toString v = (case v of None \<Rightarrow> lit ''undefined'' | Some s \<Rightarrow> s)"

definition searchPrompt :: "jsstring option \<Rightarrow> jsstring" where
  "searchPrompt prompt = trim (
     [0x0A, 0x20, 0x20, 0x20, 0x20, 0x20, 0x20, 0x20, 0x20, 0xC0AC, 0xC6A9, 0xC790, 0x20,
     0xC9C8, 0xBB38, 0x3A, 0x20]
     @ toString prompt @
     [0x0A] @
     [0x20, 0x20, 0x20, 0x20, 0x20, 0x20, 0x20, 0x20, 0xC704, 0x20, 0xC9C8, 0xBB38, 0xC5D0,
      0x20, 0xB300, 0xD55C, 0x20, 0x53, 0x42, 0x53, 0x20, 0xB274, 0xC2A4, 0x20, 0xAC80,
      0xC0C9, 0x20, 0xD0A4, 0xC6CC, 0xB4DC, 0xB97C, 0x20, 0xCD94, 0xCD9C, 0xD558, 0xC138,
      0xC694, 0x3A, 0x0A] @
     [0x20, 0x20, 0x20, 0x20, 0x20, 0x20, 0x20, 0x20, 0x31, 0x2E, 0x20, 0xC9C8, 0xBB38,
      0xC758, 0x20, 0xD575, 0xC2EC, 0x20, 0xC8FC, 0xC81C, 0xC640, 0x20, 0xAD00, 0xB828,
      0xB41C, 0x20, 0xD0A4, 0xC6CC, 0xB4DC, 0x20, 0x31, 0xAC1C, 0x20, 0xB610, 0xB294, 0x20,
      0x32, 0xAC1C, 0x20, 0xC120, 0xC815, 0x0A] @
     [0x20, 0x20, 0x20, 0x20, 0x20, 0x20, 0x20, 0x20, 0x32, 0x2E, 0x20, 0xAC00, 0xB2A5,
      0xD55C, 0x20, 0xACE0, 0xC720, 0xBA85, 0xC0AC, 0x20, 0xC704, 0xC8FC, 0xB85C, 0x20,
      0xC120, 0xBCC4, 0x2C, 0x20, 0xC5C6, 0xC73C, 0xBA74, 0x20, 0xC911, 0xC694, 0x20, 0xC77C,
      0xBC18, 0xBA85, 0xC0AC, 0x20, 0xC120, 0xD0DD, 0x0A] @
     [0x20, 0x20, 0x20, 0x20, 0x20, 0x20, 0x20, 0x20, 0x33, 0x2E, 0x20, 0xC0AC, 0xC6A9,
      0xC790, 0x20, 0xC9C8, 0xBB38, 0xC5D0, 0x20, 0xC5C6, 0xB294, 0x20, 0xD0A4, 0xC6CC,
      0xB4DC, 0x20, 0xCD94, 0xCD9C, 0x20, 0xAE08, 0xC9C0, 0x0A] @
     [0x20, 0x20, 0x20, 0x20, 0x20, 0x20, 0x20, 0x20, 0x34, 0x2E, 0x20, 0xBD88, 0xD544,
      0xC694, 0xD55C, 0x20, 0xC870, 0xC0AC, 0xB098, 0x20, 0xC77C, 0xBC18, 0xC801, 0xC778,
      0x20, 0xB2E8, 0xC5B4, 0xB294, 0x20, 0xC81C, 0xC678, 0x0A] @
     [0x20, 0x20, 0x20, 0x20, 0x20, 0x20, 0x20, 0x20, 0xCD9C, 0xB825, 0x20, 0xD615, 0xC2DD,
      0x3A, 0x20, 0xD0A4, 0xC6CC, 0xB4DC, 0xAC00, 0x20, 0x31, 0xAC1C, 0xBA74, 0x20, 0x22,
      0xD0A4, 0xC6CC, 0xB4DC, 0x31, 0x22, 0x2C, 0x20, 0x32, 0xAC1C, 0xBA74, 0x20, 0x22,
      0xD0A4, 0xC6CC, 0xB4DC, 0x31, 0x20, 0xD0A4, 0xC6CC, 0xB4DC, 0x32, 0x22, 0x0A] @
     [0x20, 0x20, 0x20, 0x20])"

text \<open>
  \<open>extractKeywords\<close> of \<open>src/app.js\<close>. \<open>formatKeywords\<close> raises a TypeError inside the
  \<open>try\<close> block when the text of the response is not a string.
\<close>

definition extractKeywords_app :: "'v world \<Rightarrow> jsstring option \<Rightarrow> jsstring async" where
  "extractKeywords_app w prompt =
     tryCatch
       (case axios_post w (searchPrompt prompt) of
          Inl e \<Rightarrow> reject e
        | Inr None \<Rightarrow> reject TypeError
        | Inr (Some text) \<Rightarrow> resolve (formatKeywords_app text))
       (\<lambda>error. await (consoleError (lit ''Error calling Claude API:'') error) (\<lambda>_. resolve []))"

text \<open>
  \<open>extractKeywords\<close> of \<open>src/unnamed/part_001\<close>. The file has no declaration and no
  \<open>require\<close> for \<open>iconv\<close>, and Node has no such global: reading the identifier raises a
  ReferenceError before the arguments of \<open>iconv.decode\<close> are evaluated. \<open>Buffer.from\<close>
  on a value that is not a string raises a TypeError.
\<close>

definition iconv :: "(jsstring \<Rightarrow> jsstring) option" where
  \<comment> \<open>the binding of the identifier \<open>iconv\<close> in \<open>src/unnamed/part_001\<close>: there is none\<close>
  "iconv = None"

definition extractKeywords_p1 :: "'v world \<Rightarrow> jsstring option \<Rightarrow> jsstring async" where
  "extractKeywords_p1 w prompt =
     tryCatch
       (case axios_post w (searchPrompt prompt) of
          Inl e \<Rightarrow> reject e
        | Inr text \<Rightarrow>
            (case iconv of
               None \<Rightarrow> reject ReferenceError
             | Some decode \<Rightarrow>
                 (case text of
                    None \<Rightarrow> reject TypeError
                  | Some t \<Rightarrow> resolve (formatKeywords_p1 (decode t)))))
       (\<lambda>error. await (consoleError (lit ''Error calling Claude API:'') error) (\<lambda>_. resolve []))"

section \<open>News fetcher\<close>

definition isUnreserved :: "jschar \<Rightarrow> bool" where
  \<comment> \<open>the code units \<open>encodeURIComponent\<close> leaves as they are\<close>
  "isUnreserved c =
     ((0x41 \<le> c \<and> c \<le> 0x5A) \<or> (0x61 \<le> c \<and> c \<le> 0x7A) \<or> (0x30 \<le> c \<and> c \<le> 0x39)
      \<or> c \<in> set (lit ''-_.!~*'()''))"

definition hexDigit :: "nat \<Rightarrow> jschar" where
  "hexDigit n = (if n < 10 then 0x30 + of_nat n else 0x41 + of_nat (n - 10))"

definition percent :: "nat \<Rightarrow> jsstring" where
  "percent b = [0x25, hexDigit (b div 16), hexDigit (b mod 16)]"

definition utf8 :: "nat \<Rightarrow> nat list" where
  "utf8 cp =
     (if cp < 0x80 then [cp]
      else if cp < 0x800 then [0xC0 + cp div 64, 0x80 + cp mod 64]
      else if cp < 0x10000 then [0xE0 + cp div 4096, 0x80 + cp div 64 mod 64, 0x80 + cp mod 64]
      else [0xF0 + cp div 262144, 0x80 + cp div 4096 mod 64, 0x80 + cp div 64 mod 64,
            0x80 + cp mod 64])"

definition isHighSurrogate :: "jschar \<Rightarrow> bool" where
  "isHighSurrogate c = (0xD800 \<le> c \<and> c \<le> 0xDBFF)"

definition isLowSurrogate :: "jschar \<Rightarrow> bool" where
  "isLowSurrogate c = (0xDC00 \<le> c \<and> c \<le> 0xDFFF)"

fun encodeURIComponent :: "jsstring \<Rightarrow> err + jsstring" where
  \<comment> \<open>the built-in: a surrogate without its partner raises a URIError\<close>
  "encodeURIComponent [] = Inr []"
| "encodeURIComponent [c] =
     (if isUnreserved c then Inr [c]
      else if isLowSurrogate c \<or> isHighSurrogate c then Inl URIError
      else Inr (concat (map percent (utf8 (unat c)))))"
| "encodeURIComponent (c # d # ds) =
     (if isUnreserved c then
        (case encodeURIComponent (d # ds) of Inl e \<Rightarrow> Inl e | Inr r \<Rightarrow> Inr (c # r))
      else if isLowSurrogate c then Inl URIError
      else if isHighSurrogate c then
        (if isLowSurrogate d then
           (case encodeURIComponent ds of
              Inl e \<Rightarrow> Inl e
            | Inr r \<Rightarrow>
                Inr (concat (map percent
                       (utf8 (0x10000 + (unat c - 0xD800) * 0x400 + (unat d - 0xDC00)))) @ r))
         else Inl URIError)
      else
        (case encodeURIComponent (d # ds) of
           Inl e \<Rightarrow> Inl e
         | Inr r \<Rightarrow> Inr (concat (map percent (utf8 (unat c))) @ r)))"

fun numberToString :: "nat \<Rightarrow> jsstring" where
  \<comment> \<open>a non-negative integer inside a template literal\<close>
  "numberToString n =
     (if n < 10 then [0x30 + of_nat n] else numberToString (n div 10) @ [0x30 + of_nat (n mod 10)])"

definition cleanText_value :: "jsstring option \<Rightarrow> err + jsstring" where
  \<comment> \<open>\<open>cleanText\<close> called on a field of a response: \<open>text.replace\<close> needs a string\<close>
  "cleanText_value text = (case text of None \<Rightarrow> Inl TypeError | Some s \<Rightarrow> Inr (cleanText s))"

definition toArticle :: "rawArticle \<Rightarrow> err + Article" where
  \<comment> \<open>the callback of \<open>articles.map\<close>\<close>
  "toArticle a =
     (case cleanText_value (TITLE a) of
        Inl e \<Rightarrow> Inl e
      | Inr t \<Rightarrow>
          (case cleanText_value (REDUCE_CONTENTS a) of
             Inl e \<Rightarrow> Inl e
           | Inr b \<Rightarrow>
               (case cleanText_value (DATE a) of
                  Inl e \<Rightarrow> Inl e
                | Inr d \<Rightarrow>
                    Inr \<lparr>title = t, article = b, date = d,
                         link = lit ''https://news.sbs.co.kr/news/endPage.do?news_id='' @ DOCID a\<rparr>)))"

fun mapThrowing :: "('a \<Rightarrow> err + 'b) \<Rightarrow> 'a list \<Rightarrow> err + 'b list" where
  \<comment> \<open>\<open>Array.prototype.map\<close> with a callback that may throw\<close>
  "mapThrowing f [] = Inr []"
| "mapThrowing f (x # xs) =
     (case f x of
        Inl e \<Rightarrow> Inl e
      | Inr y \<Rightarrow> (case mapThrowing f xs of Inl e \<Rightarrow> Inl e | Inr ys \<Rightarrow> Inr (y # ys)))"

definition newsUrl :: "jsstring \<Rightarrow> nat \<Rightarrow> jsstring" where
  "newsUrl encoded limit =
     lit ''https://searchapi.news.sbs.co.kr/search/news?query='' @ encoded
     @ lit ''&collection=news_sbs&offset=0&limit='' @ numberToString limit"

text \<open>
  \<open>fetchNewsData\<close>, the same in both files but for the default of \<open>limit\<close> (40 in
  \<open>src/app.js\<close>, 20 in \<open>src/unnamed/part_001\<close>), which the callers pass here. The URL is
  built before the \<open>try\<close> block.
\<close>

definition fetchNewsData :: "'v world \<Rightarrow> jsstring \<Rightarrow> nat \<Rightarrow> Article list async" where
  "fetchNewsData w query limit =
     (case encodeURIComponent query of
        Inl e \<Rightarrow> reject e
      | Inr encoded \<Rightarrow>
          tryCatch
            (case axios_get w (newsUrl encoded limit) of
               Inl e \<Rightarrow> reject e
             | Inr NoData \<Rightarrow> reject TypeError
             | Inr (Data NotAnArray) \<Rightarrow> reject TypeError
             | Inr (Data NoList) \<Rightarrow> resolve []
             | Inr (Data (Items articles)) \<Rightarrow>
                 (case mapThrowing toArticle articles of
                    Inl e \<Rightarrow> reject e
                  | Inr mapped \<Rightarrow> resolve (filter (\<lambda>article. title article \<noteq> []) mapped)))
            (\<lambda>error. await (consoleError (lit ''Error fetching news data:'') error)
                       (\<lambda>_. resolve [])))"

section \<open>Embedder\<close>

text \<open>
  \<open>Promise.all\<close> over promises that have a settle time: it rejects with the reason of
  the promise that rejects first (the earlier one in the array among those of one time),
  and fulfils with the values in the order of the array when none rejects.
\<close>

fun firstRejection :: "(nat \<times> (err + 'a)) list \<Rightarrow> (nat \<times> err) option" where
  "firstRejection [] = None"
| "firstRejection ((t, Inl e) # ps) =
     (case firstRejection ps of
        None \<Rightarrow> Some (t, e)
      | Some (t', e') \<Rightarrow> (if t' < t then Some (t', e') else Some (t, e)))"
| "firstRejection ((t, Inr v) # ps) = firstRejection ps"

fun fulfilled :: "(nat \<times> (err + 'a)) list \<Rightarrow> 'a list" where
  "fulfilled [] = []"
| "fulfilled ((t, Inl e) # ps) = fulfilled ps"
| "fulfilled ((t, Inr v) # ps) = v # fulfilled ps"

definition promiseAll :: "(nat \<times> (err + 'a)) list \<Rightarrow> 'a list async" where
  "promiseAll ps =
     (case firstRejection ps of Some (t, e) \<Rightarrow> reject e | None \<Rightarrow> resolve (fulfilled ps))"

definition embedDoc :: "'v world \<Rightarrow> nat \<times> Article \<Rightarrow> nat \<times> (err + 'v EmbeddedArticle)" where
  \<comment> \<open>the async callback of \<open>documents.map\<close>, for the document at index \<open>i\<close>\<close>
  "embedDoc w = (\<lambda>(i, doc).
     (case embeddings_create_doc w i (article doc) of
        (t, Inl e) \<Rightarrow> (t, Inl e)
      | (t, Inr None) \<Rightarrow> (t, Inl TypeError)
      | (t, Inr (Some v)) \<Rightarrow>
          (t, Inr \<lparr>title = title doc, article = article doc, date = date doc, link = link doc,
                   embedding = v\<rparr>)))"

definition createEmbeddings :: "'v world \<Rightarrow> Article list \<Rightarrow> 'v EmbeddedArticle list async" where
  \<comment> \<open>the same in both files\<close>
  "createEmbeddings w documents =
     await (promiseAll (map (embedDoc w) (enumerate 0 documents))) (\<lambda>embeddings.
     resolve embeddings)"

section \<open>Store\<close>

definition storeEmbeddings_app ::
  "'v world \<Rightarrow> 'v EmbeddedArticle list \<Rightarrow> 'v EmbeddedArticle list option async" where
  \<comment> \<open>\<open>storeEmbeddings\<close> of \<open>src/app.js\<close>\<close>
  "storeEmbeddings_app w embeddings =
     (case supabase_insert w embeddings of
        Inl e \<Rightarrow> reject e
      | Inr r \<Rightarrow>
          await (case error r of
                   Some e \<Rightarrow> consoleError (lit ''Error storing embeddings:'') e
                 | None \<Rightarrow> resolve ()) (\<lambda>_.
          resolve (data r)))"

definition storeEmbeddings_p1 ::
  "'v world \<Rightarrow> 'v EmbeddedArticle list \<Rightarrow> 'v EmbeddedArticle list option async" where
  \<comment> \<open>\<open>storeEmbeddings\<close> of \<open>src/unnamed/part_001\<close>\<close>
  "storeEmbeddings_p1 w embeddings =
     tryCatch
       (case supabase_insert w embeddings of
          Inl e \<Rightarrow> reject e
        | Inr r \<Rightarrow>
            (case error r of
               Some e \<Rightarrow>
                 await (consoleError (lit ''Error storing embeddings:'') e) (\<lambda>_. reject e)
             | None \<Rightarrow> resolve (data r)))
       (\<lambda>error. await (consoleError (lit ''Error in storeEmbeddings:'') error) (\<lambda>_. reject error))"

section \<open>Similarity search\<close>

definition findSimilarDocuments ::
  "'v world \<Rightarrow> jsstring option \<Rightarrow> nat \<Rightarrow> doc list option async" where
  \<comment> \<open>the same in both files\<close>
  "findSimilarDocuments w query k =
     (case embeddings_create_query w query of
        Inl e \<Rightarrow> reject e
      | Inr None \<Rightarrow> reject TypeError
      | Inr (Some queryEmbedding) \<Rightarrow>
          (case supabase_rpc w queryEmbedding k of
             Inl e \<Rightarrow> reject e
           | Inr r \<Rightarrow>
               await (case error r of
                        Some e \<Rightarrow> consoleError (lit ''Error finding similar documents:'') e
                      | None \<Rightarrow> resolve ()) (\<lambda>_.
               resolve (data r))))"

section \<open>Responder and request handler\<close>

definition linkText :: "doc \<Rightarrow> jsstring" where
  \<comment> \<open>\<open>join\<close> renders a missing link as the empty string\<close>
  "linkText d = (case doc_link d of None \<Rightarrow> [] | Some l \<Rightarrow> l)"

definition header :: jsstring where
  \<comment> \<open>the header line with its newline\<close>
  "header = [0xAD00, 0xB828, 0x20, 0xB274, 0xC2A4, 0x20, 0xB9C1, 0xD06C, 0x3A, 0x0A]"

definition notFound :: jsstring where
  \<comment> \<open>the message of \<open>src/unnamed/part_001\<close> for no results\<close>
  "notFound = [0xAD00, 0xB828, 0x20, 0xB274, 0xC2A4, 0xB97C, 0x20, 0xCC3E, 0xC744, 0x20, 0xC218,
               0x20, 0xC5C6, 0xC2B5, 0xB2C8, 0xB2E4, 0x2E]"

definition apology :: jsstring where
  \<comment> \<open>the message of \<open>src/unnamed/part_001\<close> for a failed request\<close>
  "apology = [0xC8C4, 0xC1A1, 0xD569, 0xB2C8, 0xB2E4, 0x2E, 0x20, 0xB274, 0xC2A4, 0xB97C, 0x20,
              0xAC80, 0xC0C9, 0xD558, 0xB294, 0x20, 0xC911, 0x20, 0xC624, 0xB958, 0xAC00, 0x20,
              0xBC1C, 0xC0DD, 0xD588, 0xC2B5, 0xB2C8, 0xB2E4, 0x2E]"

definition responseText_app :: "doc list option \<Rightarrow> err + jsstring" where
  \<comment> \<open>the \<open>text\<close> of \<open>responseBody\<close> in \<open>src/app.js\<close>: \<open>map\<close> of null raises\<close>
  "responseText_app similarDocuments =
     (case similarDocuments of
        None \<Rightarrow> Inl TypeError
      | Some docs \<Rightarrow> Inr (header @ join [0x0A] (map linkText docs)))"

definition responseText_p1 :: "doc list option \<Rightarrow> err + jsstring" where
  \<comment> \<open>the \<open>text\<close> of \<open>responseBody\<close> in \<open>src/unnamed/part_001\<close>\<close>
  "responseText_p1 similarDocuments =
     (case similarDocuments of
        None \<Rightarrow> Inr notFound
      | Some docs \<Rightarrow>
          (if length docs > 0 then Inr (header @ join [0x0A] (map linkText docs))
           else Inr notFound))"

text \<open>
  The handlers of \<open>POST /searchNews\<close>. A rejection of the handler itself (\<open>Inl\<close>) is an
  error that nothing catches: no response is sent.
\<close>

definition searchNews_app :: "'v world \<Rightarrow> body \<Rightarrow> response async" where
  "searchNews_app w reqBody =
     (case userRequest reqBody of
        None \<Rightarrow> reject TypeError
      | Some ur \<Rightarrow>
          (let userUtterance = utterance ur in
           tryCatch
             (await (extractKeywords_app w userUtterance) (\<lambda>keywords.
              await (fetchNewsData w keywords 40) (\<lambda>newsData.
              await (createEmbeddings w newsData) (\<lambda>embeddings.
              await (storeEmbeddings_app w embeddings) (\<lambda>_.
              await (findSimilarDocuments w userUtterance 5) (\<lambda>similarDocuments.
              (case responseText_app similarDocuments of
                 Inl e \<Rightarrow> reject e
               | Inr text \<Rightarrow> resolve \<lparr>status = 200, sent = Envelope text\<rparr>)))))))
             (\<lambda>error.
                await (consoleError (lit ''Error processing request:'') error) (\<lambda>_.
                resolve \<lparr>status = 500, sent = ErrorObject (lit ''Internal Server Error'')\<rparr>))))"

definition searchNews_p1 :: "'v world \<Rightarrow> body \<Rightarrow> response async" where
  "searchNews_p1 w reqBody =
     (case userRequest reqBody of
        None \<Rightarrow> reject TypeError
      | Some ur \<Rightarrow>
          (let userUtterance = utterance ur in
           tryCatch
             (await (extractKeywords_p1 w userUtterance) (\<lambda>keywords.
              await (fetchNewsData w keywords 20) (\<lambda>newsData.
              await (createEmbeddings w newsData) (\<lambda>embeddings.
              await (storeEmbeddings_p1 w embeddings) (\<lambda>_.
              await (findSimilarDocuments w userUtterance 5) (\<lambda>similarDocuments.
              (case responseText_p1 similarDocuments of
                 Inl e \<Rightarrow> reject e
               | Inr text \<Rightarrow> resolve \<lparr>status = 200, sent = Envelope text\<rparr>)))))))
             (\<lambda>error.
                await (consoleError (lit ''Error processing request:'') error) (\<lambda>_.
                resolve \<lparr>status = 500, sent = Envelope apology\<rparr>))))"

section \<open>Auxiliary notions of the statements\<close>

fun hasMatch :: "regex \<Rightarrow> jsstring \<Rightarrow> bool" where
  \<comment> \<open>\<open>RegExp.prototype.test\<close>: the pattern matches somewhere in the string\<close>
  "hasMatch r [] = (matchAlt r [] \<noteq> None)"
| "hasMatch r (c # cs) = (matchAlt r (c # cs) \<noteq> None \<or> hasMatch r cs)"

function tokens :: "jsstring \<Rightarrow> jsstring list" where
  \<comment> \<open>the whitespace-separated tokens of a string: its maximal runs without white space\<close>
  "tokens s =
     (case dropWhile isWhiteSpace s of
        [] \<Rightarrow> []
      | c # cs \<Rightarrow>
          (c # takeWhile (\<lambda>x. \<not> isWhiteSpace x) cs)
          # tokens (dropWhile (\<lambda>x. \<not> isWhiteSpace x) cs))"
  by pat_completeness auto
termination
proof (relation "measure length")
  show "wf (measure length)" by simp
next
  fix s :: jsstring and c cs
  assume "dropWhile isWhiteSpace s = c # cs"
  then have "length (c # cs) \<le> length s"
    by (metis length_dropWhile_le)
  moreover have "length (dropWhile (\<lambda>x. \<not> isWhiteSpace x) cs) \<le> length cs"
    by (rule length_dropWhile_le)
  ultimately show "(dropWhile (\<lambda>x. \<not> isWhiteSpace x) cs, s) \<in> measure length"
    by simp
qed

definition removeCommas :: "jsstring \<Rightarrow> jsstring" where
  "removeCommas s = filter (\<lambda>c. c \<noteq> 0x2C) s"

subsection \<open>Sample worlds and inputs\<close>

definition quietWorld :: "nat world" where
  \<comment> \<open>every service answers: no news, no rows, embedding \<open>i\<close> for the \<open>i\<close>-th document\<close>
  "quietWorld =
     \<lparr>axios_post = (\<lambda>prompt. Inr (Some (lit ''a, b c''))),
      axios_get = (\<lambda>url. Inr (Data (Items []))),
      embeddings_create_doc = (\<lambda>i input. (i, Inr (Some i))),
      embeddings_create_query = (\<lambda>input. Inr (Some 0)),
      supabase_insert = (\<lambda>rows. Inr \<lparr>data = None, error = None\<rparr>),
      supabase_rpc = (\<lambda>v k. Inr \<lparr>data = Some [], error = None\<rparr>)\<rparr>"

definition failingStoreWorld :: "nat world" where
  \<comment> \<open>the bulk insert reports an error\<close>
  "failingStoreWorld =
     quietWorld\<lparr>supabase_insert := (\<lambda>rows. Inr \<lparr>data = None, error = Some (ProviderError 1)\<rparr>)\<rparr>"


definition absentRowsWorld :: "nat world" where
  \<comment> \<open>\<open>match_documents\<close> reports an error and gives no rows\<close>
  "absentRowsWorld =
     quietWorld\<lparr>supabase_rpc := (\<lambda>v k. Inr \<lparr>data = None, error = Some (ProviderError 4)\<rparr>)\<rparr>"

definition failingSearchWorld :: "nat world" where
  \<comment> \<open>the news search cannot be reached\<close>
  "failingSearchWorld = quietWorld\<lparr>axios_get := (\<lambda>url. Inl (ProviderError 3))\<rparr>"

definition untitledRecord :: rawArticle where
  "untitledRecord =
     \<lparr>TITLE = Some [], REDUCE_CONTENTS = Some (lit ''body''), DATE = Some (lit ''2024''),
      DOCID = lit ''N1''\<rparr>"

definition titledRecord :: rawArticle where
  "titledRecord =
     \<lparr>TITLE = Some (lit ''<!HS>news<!HE>''), REDUCE_CONTENTS = Some (lit ''text''),
      DATE = Some (lit ''2024''), DOCID = lit ''N2''\<rparr>"

definition newsWorld :: "nat world" where
  \<comment> \<open>the news search returns a record without a title and one with a title\<close>
  "newsWorld = quietWorld\<lparr>axios_get := (\<lambda>url. Inr (Data (Items [untitledRecord, titledRecord])))\<rparr>"

definition articleA :: Article where
  "articleA = \<lparr>title = lit ''A'', article = lit ''first'', date = lit ''2024'', link = lit ''u/A''\<rparr>"

definition articleB :: Article where
  "articleB = \<lparr>title = lit ''B'', article = lit ''second'', date = lit ''2025'', link = lit ''u/B''\<rparr>"

definition samsung :: jsstring where
  \<comment> \<open>the keyword example of the specification, with its comma\<close>
  "samsung = [0xC0BC, 0xC131, 0x2C, 0x20, 0xC804, 0xC790]"

definition highlighted :: jsstring where
  \<comment> \<open>the cleaning example of the specification\<close>
  "highlighted = [0x3C, 0x21, 0x48, 0x53, 0x3E, 0xB274, 0xC2A4, 0x3C, 0x21, 0x48, 0x45, 0x3E,
                  0x0A, 0x0A, 0x0A, 0xB0B4, 0xC6A9]"

declare tokens.simps [simp del]

section \<open>Properties\<close>

lemmas async_defs = resolve_def reject_def consoleError_def await_def tryCatch_def

subsection \<open>Store\<close>

lemma storeEmbeddings_rejected_insert:
  assumes "supabase_insert w embeddings = Inl e"
  shows "storeEmbeddings_p1 w embeddings = ([ConsoleError (lit ''Error in storeEmbeddings:'') e], Inl e)"
    and "storeEmbeddings_app w embeddings = ([], Inl e)"
  using assms by (simp_all add: storeEmbeddings_p1_def storeEmbeddings_app_def async_defs)

text \<open>
  When the bulk insert reports a write failure in the \<open>error\<close> field of its reply,
  \<open>storeEmbeddings\<close> of \<open>src/unnamed/part_001\<close> logs it twice and fails with that error,
  which reaches the caller.
\<close>

lemma storeEmbeddings_p1_write_failure:
  assumes "supabase_insert w embeddings = Inr r" and "error r = Some e"
  shows "storeEmbeddings_p1 w embeddings =
           ([ConsoleError (lit ''Error storing embeddings:'') e,
             ConsoleError (lit ''Error in storeEmbeddings:'') e], Inl e)"
  using assms by (simp add: storeEmbeddings_p1_def async_defs)

lemma storeEmbeddings_p1_write_failure_example:
  "supabase_insert failingStoreWorld [] = Inr \<lparr>data = None, error = Some (ProviderError 1)\<rparr>
   \<and> snd (storeEmbeddings_p1 failingStoreWorld []) = Inl (ProviderError 1)"
proof -
  have h: "supabase_insert failingStoreWorld [] = Inr \<lparr>data = None, error = Some (ProviderError 1)\<rparr>"
    by (simp add: failingStoreWorld_def quietWorld_def)
  from storeEmbeddings_p1_write_failure [OF h, of "ProviderError 1"] h show ?thesis by simp
qed

text \<open>
  \<open>storeEmbeddings\<close> of \<open>src/app.js\<close> has no \<open>throw\<close>: for every reply with an error it
  logs the error once and returns the \<open>data\<close> of the reply.
\<close>

lemma storeEmbeddings_app_write_failure:
  assumes "supabase_insert w embeddings = Inr r" and "error r = Some e"
  shows "storeEmbeddings_app w embeddings =
           ([ConsoleError (lit ''Error storing embeddings:'') e], Inr (data r))"
  using assms by (simp add: storeEmbeddings_app_def async_defs)

text \<open>
  C1. When the bulk insert reports a write failure, \<open>storeEmbeddings\<close> is to fail with
  that error, so that the handler replies with the failure envelope;
  \<open>storeEmbeddings\<close> of \<open>src/unnamed/part_001\<close> does. \<open>storeEmbeddings\<close> of \<open>src/app.js\<close>
  does not: where the insert reports the error \<open>ProviderError 1\<close>, it logs the error and
  returns normally, and the handler replies with status 200.
\<close>

theorem storeEmbeddings_app_swallows:
  "supabase_insert failingStoreWorld [] = Inr \<lparr>data = None, error = Some (ProviderError 1)\<rparr>
   \<and> storeEmbeddings_app failingStoreWorld [] =
       ([ConsoleError (lit ''Error storing embeddings:'') (ProviderError 1)], Inr None)
   \<and> searchNews_app failingStoreWorld (Body (Some (UserRequest (Some (lit ''hi''))))) =
       ([ConsoleError (lit ''Error storing embeddings:'') (ProviderError 1)],
        Inr \<lparr>status = 200, sent = Envelope header\<rparr>)"
proof -
  have a: "supabase_insert failingStoreWorld [] =
             Inr \<lparr>data = None, error = Some (ProviderError 1)\<rparr>"
    by (simp add: failingStoreWorld_def quietWorld_def)
  have b: "storeEmbeddings_app failingStoreWorld [] =
             ([ConsoleError (lit ''Error storing embeddings:'') (ProviderError 1)], Inr None)"
    by (simp add: failingStoreWorld_def quietWorld_def storeEmbeddings_app_def async_defs)
  have c: "searchNews_app failingStoreWorld (Body (Some (UserRequest (Some (lit ''hi''))))) =
             ([ConsoleError (lit ''Error storing embeddings:'') (ProviderError 1)],
              Inr \<lparr>status = 200, sent = Envelope header\<rparr>)"
    by code_simp
  from a b c show ?thesis by (intro conjI)
qed

subsection \<open>Responder\<close>

text \<open>
  In \<open>src/unnamed/part_001\<close> the text is the "no results" message for an absent or empty
  sequence, and otherwise the header line followed by the links, one per line, in the
  order of the results.
\<close>

lemma responseText_p1_header_and_links:
  "responseText_p1 None = Inr notFound
   \<and> responseText_p1 (Some []) = Inr notFound
   \<and> (docs \<noteq> [] \<longrightarrow> responseText_p1 (Some docs) = Inr (header @ join [0x0A] (map linkText docs)))"
  by (simp add: responseText_p1_def)

lemma responseText_p1_example:
  "responseText_p1 (Some [Doc (Some (lit ''A'')), Doc (Some (lit ''B''))])
     = Inr (header @ lit ''A'' @ [0x0A] @ lit ''B'')"
  using responseText_p1_header_and_links [of "[Doc (Some (lit ''A'')), Doc (Some (lit ''B''))]"]
  by (simp add: linkText_def)

lemma searchNews_p1_no_rows:
  "searchNews_p1 quietWorld (Body (Some (UserRequest (Some (lit ''hi''))))) =
     ([ConsoleError (lit ''Error calling Claude API:'') ReferenceError],
      Inr \<lparr>status = 200, sent = Envelope notFound\<rparr>)"
  by code_simp

lemma searchNews_p1_absent_rows:
  "searchNews_p1 absentRowsWorld (Body (Some (UserRequest (Some (lit ''hi''))))) =
     ([ConsoleError (lit ''Error calling Claude API:'') ReferenceError,
       ConsoleError (lit ''Error finding similar documents:'') (ProviderError 4)],
      Inr \<lparr>status = 200, sent = Envelope notFound\<rparr>)"
  by code_simp

text \<open>
  \<open>src/app.js\<close> has no test of the sequence and no other text: the text of every
  sequence, the empty one too, is the header line followed by the links, and \<open>map\<close> of
  an absent sequence raises.
\<close>

lemma responseText_app_links:
  "responseText_app (Some docs) = Inr (header @ join [0x0A] (map linkText docs))
   \<and> responseText_app None = Inl TypeError"
  by (simp add: responseText_app_def)

text \<open>
  C2. For an empty or absent sequence the responder is to produce the fixed "no results"
  message, and otherwise the header line followed by one link per line; the responder of
  \<open>src/unnamed/part_001\<close> does. The one of \<open>src/app.js\<close> does not: for the empty
  sequence its text is the header alone, sent with status 200, and for an absent sequence
  it raises a TypeError, which the handler answers with status 500 and an error object.
\<close>

theorem responseText_app_empty:
  "responseText_app (Some []) = Inr header
   \<and> Inr header \<noteq> (Inr notFound :: err + jsstring)
   \<and> responseText_app None = Inl TypeError
   \<and> searchNews_app quietWorld (Body (Some (UserRequest (Some (lit ''hi''))))) =
       ([], Inr \<lparr>status = 200, sent = Envelope header\<rparr>)
   \<and> searchNews_app absentRowsWorld (Body (Some (UserRequest (Some (lit ''hi''))))) =
       ([ConsoleError (lit ''Error finding similar documents:'') (ProviderError 4),
         ConsoleError (lit ''Error processing request:'') TypeError],
        Inr \<lparr>status = 500, sent = ErrorObject (lit ''Internal Server Error'')\<rparr>)"
proof -
  have a: "responseText_app (Some []) = Inr header"
    by (simp add: responseText_app_def)
  have b: "Inr header \<noteq> (Inr notFound :: err + jsstring)"
    by (simp add: header_def notFound_def)
  have c: "responseText_app None = Inl TypeError"
    by (simp add: responseText_app_def)
  have d: "searchNews_app quietWorld (Body (Some (UserRequest (Some (lit ''hi''))))) =
             ([], Inr \<lparr>status = 200, sent = Envelope header\<rparr>)"
    by code_simp
  have e: "searchNews_app absentRowsWorld (Body (Some (UserRequest (Some (lit ''hi''))))) =
             ([ConsoleError (lit ''Error finding similar documents:'') (ProviderError 4),
               ConsoleError (lit ''Error processing request:'') TypeError],
              Inr \<lparr>status = 500, sent = ErrorObject (lit ''Internal Server Error'')\<rparr>)"
    by code_simp
  from a b c d e show ?thesis by (intro conjI)
qed

subsection \<open>Request handler\<close>

lemma tryCatch_resolves:
  assumes "\<And>e. \<exists>l x. handler e = (l, Inr x)"
  shows "\<exists>l x. tryCatch m handler = (l, Inr x)"
proof (cases m)
  case (Pair l r)
  show ?thesis
  proof (cases r)
    case (Inl e)
    from assms [of e] obtain l' x where "handler e = (l', Inr x)" by blast
    with Pair Inl show ?thesis by (simp add: tryCatch_def)
  next
    case (Inr x)
    with Pair show ?thesis by (simp add: tryCatch_def)
  qed
qed

lemma searchNews_responds:
  assumes "userRequest reqBody = Some ur"
  shows "\<exists>l resp. searchNews_app w reqBody = (l, Inr resp)"
    and "\<exists>l resp. searchNews_p1 w reqBody = (l, Inr resp)"
  using assms unfolding searchNews_app_def searchNews_p1_def
  by (simp_all add: Let_def tryCatch_resolves consoleError_def await_def resolve_def)

lemma searchNews_p1_failing_store:
  "searchNews_p1 failingStoreWorld (Body (Some (UserRequest (Some (lit ''hi''))))) =
     ([ConsoleError (lit ''Error calling Claude API:'') ReferenceError,
       ConsoleError (lit ''Error storing embeddings:'') (ProviderError 1),
       ConsoleError (lit ''Error in storeEmbeddings:'') (ProviderError 1),
       ConsoleError (lit ''Error processing request:'') (ProviderError 1)],
      Inr \<lparr>status = 500, sent = Envelope apology\<rparr>)"
  by code_simp

text \<open>
  C9. For the request body without \<open>userRequest\<close>, the handler of either file rejects with
  a TypeError that nothing catches: the field is read before the \<open>try\<close> block, so the
  handler writes no error line and sends no response, neither the one with status 200 nor
  the one with status 500.
\<close>

theorem searchNews_missing_userRequest:
  "searchNews_app w (Body None) = ([], Inl TypeError)
   \<and> searchNews_p1 w (Body None) = ([], Inl TypeError)"
  by (simp add: searchNews_app_def searchNews_p1_def reject_def)

subsection \<open>Keyword extraction\<close>

text \<open>
  C10. \<open>extractKeywords\<close> of \<open>src/unnamed/part_001\<close> returns the empty string for every
  utterance and every outcome of the provider call. When the call succeeds, the error that
  is logged and swallowed is the ReferenceError for \<open>iconv\<close>.
\<close>

theorem extractKeywords_p1_empty:
  "snd (extractKeywords_p1 w prompt) = Inr []
   \<and> (axios_post w (searchPrompt prompt) = Inr text \<longrightarrow>
        extractKeywords_p1 w prompt =
          ([ConsoleError (lit ''Error calling Claude API:'') ReferenceError], Inr []))"
  by (simp add: extractKeywords_p1_def iconv_def async_defs split: sum.splits)

theorem extractKeywords_p1_empty_witness:
  "axios_post quietWorld (searchPrompt (Some (lit ''hi''))) = Inr (Some (lit ''a, b c''))
   \<and> extractKeywords_p1 quietWorld (Some (lit ''hi'')) =
       ([ConsoleError (lit ''Error calling Claude API:'') ReferenceError], Inr [])"
proof -
  have h: "axios_post quietWorld (searchPrompt (Some (lit ''hi''))) = Inr (Some (lit ''a, b c''))"
    by (simp add: quietWorld_def)
  from extractKeywords_p1_empty [of quietWorld "Some (lit ''hi'')" "Some (lit ''a, b c'')"] h
  show ?thesis by simp
qed

subsection \<open>News fetcher\<close>

text \<open>
  C6. When the URL has been built and the call of the news search fails,
  \<open>fetchNewsData\<close> does not raise: it logs the error and resolves to the empty sequence.
  (The call is made only for a query that \<open>encodeURIComponent\<close> accepts.)
\<close>

theorem fetchNewsData_transport_failure:
  assumes "encodeURIComponent query = Inr encoded"
    and "axios_get w (newsUrl encoded limit) = Inl e"
  shows "fetchNewsData w query limit = ([ConsoleError (lit ''Error fetching news data:'') e], Inr [])"
  using assms by (simp add: fetchNewsData_def async_defs)

theorem fetchNewsData_transport_failure_witness:
  "encodeURIComponent (lit ''a b'') = Inr (lit ''a%20b'')
   \<and> axios_get failingSearchWorld (newsUrl (lit ''a%20b'') 20) = Inl (ProviderError 3)
   \<and> fetchNewsData failingSearchWorld (lit ''a b'') 20 =
       ([ConsoleError (lit ''Error fetching news data:'') (ProviderError 3)], Inr [])"
proof -
  have h1: "encodeURIComponent (lit ''a b'') = Inr (lit ''a%20b'')"
    by code_simp
  have h2: "axios_get failingSearchWorld (newsUrl (lit ''a%20b'') 20) = Inl (ProviderError 3)"
    by (simp add: failingSearchWorld_def quietWorld_def)
  from fetchNewsData_transport_failure [OF h1 h2] h1 h2 show ?thesis by simp
qed

lemma fetchNewsData_rejects:
  "fetchNewsData w query limit = (l, Inl e) \<Longrightarrow> encodeURIComponent query = Inl e \<and> l = []"
  by (auto simp: fetchNewsData_def async_defs split: sum.splits newsData.splits news_sbs.splits)

lemma mapThrowing_Inr:
  "mapThrowing f xs = Inr ys \<Longrightarrow>
     length ys = length xs \<and> (\<forall>i < length xs. f (xs ! i) = Inr (ys ! i))"
proof (induction xs arbitrary: ys)
  case Nil
  then show ?case by simp
next
  case (Cons x xs)
  then show ?case by (auto simp: nth_Cons split: sum.splits nat.splits)
qed

text \<open>
  C7. Every article that \<open>fetchNewsData\<close> returns has a non-empty title; when the search
  answers with records that all convert, the result is the converted records, in order,
  without those whose cleaned title is empty.
\<close>

theorem fetchNewsData_titles:
  assumes "snd (fetchNewsData w query limit) = Inr articles"
  shows "(\<forall>a \<in> set articles. title a \<noteq> [])
         \<and> (\<forall>encoded raws mapped.
               encodeURIComponent query = Inr encoded
             \<and> axios_get w (newsUrl encoded limit) = Inr (Data (Items raws))
             \<and> mapThrowing toArticle raws = Inr mapped
             \<longrightarrow> articles = filter (\<lambda>a. title a \<noteq> []) mapped)"
  using assms
  by (auto simp: fetchNewsData_def async_defs split: sum.splits newsData.splits news_sbs.splits)

theorem fetchNewsData_titles_witness:
  "snd (fetchNewsData newsWorld (lit ''a'') 20) =
     Inr [\<lparr>title = lit ''news'', article = lit ''text'', date = lit ''2024'',
           link = lit ''https://news.sbs.co.kr/news/endPage.do?news_id=N2''\<rparr>]
   \<and> title \<lparr>title = lit ''news'', article = lit ''text'', date = lit ''2024'',
              link = lit ''https://news.sbs.co.kr/news/endPage.do?news_id=N2''\<rparr> \<noteq> []
   \<and> encodeURIComponent (lit ''a'') = Inr (lit ''a'')
   \<and> axios_get newsWorld (newsUrl (lit ''a'') 20) = Inr (Data (Items [untitledRecord, titledRecord]))
   \<and> mapThrowing toArticle [untitledRecord, titledRecord] =
       Inr [\<lparr>title = [], article = lit ''body'', date = lit ''2024'',
             link = lit ''https://news.sbs.co.kr/news/endPage.do?news_id=N1''\<rparr>,
            \<lparr>title = lit ''news'', article = lit ''text'', date = lit ''2024'',
             link = lit ''https://news.sbs.co.kr/news/endPage.do?news_id=N2''\<rparr>]"
proof -
  have h: "snd (fetchNewsData newsWorld (lit ''a'') 20) =
     Inr [\<lparr>title = lit ''news'', article = lit ''text'', date = lit ''2024'',
           link = lit ''https://news.sbs.co.kr/news/endPage.do?news_id=N2''\<rparr>]"
    by code_simp
  have e: "encodeURIComponent (lit ''a'') = Inr (lit ''a'')"
    by code_simp
  have g: "axios_get newsWorld (newsUrl (lit ''a'') 20) = Inr (Data (Items [untitledRecord, titledRecord]))"
    by (simp add: newsWorld_def quietWorld_def)
  have m: "mapThrowing toArticle [untitledRecord, titledRecord] =
       Inr [\<lparr>title = [], article = lit ''body'', date = lit ''2024'',
             link = lit ''https://news.sbs.co.kr/news/endPage.do?news_id=N1''\<rparr>,
            \<lparr>title = lit ''news'', article = lit ''text'', date = lit ''2024'',
             link = lit ''https://news.sbs.co.kr/news/endPage.do?news_id=N2''\<rparr>]"
    by code_simp
  from fetchNewsData_titles [OF h] have
    "\<forall>a \<in> set [\<lparr>title = lit ''news'', article = lit ''text'', date = lit ''2024'',
                  link = lit ''https://news.sbs.co.kr/news/endPage.do?news_id=N2''\<rparr>].
       title a \<noteq> []"
    by (rule conjunct1)
  then have "title \<lparr>title = lit ''news'', article = lit ''text'', date = lit ''2024'',
               link = lit ''https://news.sbs.co.kr/news/endPage.do?news_id=N2''\<rparr> \<noteq> []"
    by (simp del: Article.simps)
  with h e g m show ?thesis by (intro conjI)
qed

subsection \<open>Embedder\<close>

lemma firstRejection_None_iff:
  "firstRejection ps = None \<longleftrightarrow> (\<forall>p \<in> set ps. \<exists>v. snd p = Inr v)"
  by (induction ps rule: firstRejection.induct) (auto split: option.splits)



lemma fulfilled_nth:
  "firstRejection ps = None \<Longrightarrow>
     length (fulfilled ps) = length ps \<and> (\<forall>i < length ps. snd (ps ! i) = Inr (fulfilled ps ! i))"
proof (induction ps rule: firstRejection.induct)
  case 1
  then show ?case by simp
next
  case (2 t e ps)
  then show ?case by (simp split: option.splits prod.splits if_splits)
next
  case (3 t v ps)
  then show ?case by (auto simp: nth_Cons split: nat.splits)
qed

lemma promises_nth:
  "j < length documents \<Longrightarrow>
     map (embedDoc w) (enumerate 0 documents) ! j = embedDoc w (j, documents ! j)"
  by (simp add: nth_enumerate_eq)

lemma createEmbeddings_eq:
  "createEmbeddings w documents = promiseAll (map (embedDoc w) (enumerate 0 documents))"
  by (simp add: createEmbeddings_def async_defs promiseAll_def split: option.splits prod.splits)

lemma createEmbeddings_succeeds:
  assumes "\<forall>i < length documents.
             \<exists>t v. embeddings_create_doc w i (article (documents ! i)) = (t, Inr (Some v))"
  shows "\<exists>embeddings. createEmbeddings w documents = ([], Inr embeddings)"
proof -
  let ?ps = "map (embedDoc w) (enumerate 0 documents)"
  have "\<exists>v. snd p = Inr v" if "p \<in> set ?ps" for p
  proof -
    from that obtain j where j: "j < length documents" "p = ?ps ! j"
      by (metis in_set_conv_nth length_map length_enumerate)
    then have "p = embedDoc w (j, documents ! j)" by (metis promises_nth)
    with assms j(1) show ?thesis by (auto simp: embedDoc_def)
  qed
  then have "firstRejection ?ps = None" by (simp add: firstRejection_None_iff)
  then show ?thesis by (simp add: createEmbeddings_eq promiseAll_def resolve_def)
qed



text \<open>
  C8. When \<open>createEmbeddings\<close> succeeds, its result has one entry for each article, in
  the order of the input; the entry has the title, body, date and link of its article,
  and the vector that the embedding service returned for the body of that article.
\<close>

theorem createEmbeddings_preserves:
  assumes "snd (createEmbeddings w documents) = Inr embeddings"
  shows "length embeddings = length documents
         \<and> (\<forall>i < length documents.
               title (embeddings ! i) = title (documents ! i)
             \<and> article (embeddings ! i) = article (documents ! i)
             \<and> date (embeddings ! i) = date (documents ! i)
             \<and> link (embeddings ! i) = link (documents ! i)
             \<and> snd (embeddings_create_doc w i (article (documents ! i)))
                 = Inr (Some (embedding (embeddings ! i))))"
proof -
  let ?ps = "map (embedDoc w) (enumerate 0 documents)"
  have len: "length ?ps = length documents" by simp
  from assms have none: "firstRejection ?ps = None" and emb: "embeddings = fulfilled ?ps"
    by (auto simp: createEmbeddings_eq promiseAll_def async_defs split: option.splits)
  from fulfilled_nth [OF none] have l: "length embeddings = length documents"
    and nth: "\<forall>i < length documents. snd (?ps ! i) = Inr (embeddings ! i)"
    using emb len by simp_all
  have "title (embeddings ! i) = title (documents ! i)
      \<and> article (embeddings ! i) = article (documents ! i)
      \<and> date (embeddings ! i) = date (documents ! i)
      \<and> link (embeddings ! i) = link (documents ! i)
      \<and> snd (embeddings_create_doc w i (article (documents ! i)))
          = Inr (Some (embedding (embeddings ! i)))" if i: "i < length documents" for i
  proof -
    from nth i have "Inr (embeddings ! i) = snd (embedDoc w (i, documents ! i))"
      by (metis promises_nth)
    then show ?thesis
      by (cases "embeddings_create_doc w i (article (documents ! i))")
         (auto simp: embedDoc_def split: sum.splits option.splits)
  qed
  with l show ?thesis by blast
qed

theorem createEmbeddings_preserves_witness:
  "snd (createEmbeddings quietWorld [articleA, articleB]) =
     Inr [\<lparr>title = lit ''A'', article = lit ''first'', date = lit ''2024'', link = lit ''u/A'',
           embedding = 0\<rparr>,
          \<lparr>title = lit ''B'', article = lit ''second'', date = lit ''2025'', link = lit ''u/B'',
           embedding = 1\<rparr>]
   \<and> length [\<lparr>title = lit ''A'', article = lit ''first'', date = lit ''2024'', link = lit ''u/A'',
               embedding = 0::nat\<rparr>,
              \<lparr>title = lit ''B'', article = lit ''second'', date = lit ''2025'', link = lit ''u/B'',
               embedding = 1\<rparr>] = length [articleA, articleB]"
proof -
  have h: "snd (createEmbeddings quietWorld [articleA, articleB]) =
     Inr [\<lparr>title = lit ''A'', article = lit ''first'', date = lit ''2024'', link = lit ''u/A'',
           embedding = 0\<rparr>,
          \<lparr>title = lit ''B'', article = lit ''second'', date = lit ''2025'', link = lit ''u/B'',
           embedding = 1\<rparr>]"
    by (simp add: createEmbeddings_def promiseAll_def async_defs embedDoc_def quietWorld_def
          articleA_def articleB_def enumerate_eq_zip upt_rec)
  from createEmbeddings_preserves [OF h] h show ?thesis by (intro conjI) simp_all
qed

subsection \<open>Text cleaning\<close>

lemma matchSeq_Star: "matchSeq [Star p] s = Some (dropWhile p s)"
  by (induction s) auto

lemma matchAlt_Plus:
  "matchAlt [[Plus p]] (c # cs) = (if p c then Some (dropWhile p cs) else None)"
  by (simp add: matchSeq_Star)

lemma collapse_Cons:
  "replaceAll reNewlines [0x0A] (c # cs) =
     (if c = 0x0A then 0x0A # replaceAll reNewlines [0x0A] (dropWhile (\<lambda>x. x = 0x0A) cs)
      else c # replaceAll reNewlines [0x0A] cs)"
  by (simp add: reNewlines_def matchAlt_Plus length_dropWhile_le del: matchAlt.simps)

lemma collapse_Nil: "replaceAll reNewlines [0x0A] [] = []"
  by (simp add: reNewlines_def)

lemma dropWhile_Cons_hd: "dropWhile P xs = d # ds \<Longrightarrow> \<not> P d"
  by (metis hd_dropWhile list.sel(1) list.distinct(1))

lemma collapse_keep:
  assumes "s' = dropWhile (\<lambda>x. x = 0x0A) cs"
  shows "dropWhile (\<lambda>x. x = 0x0A) (replaceAll reNewlines [0x0A] s') = replaceAll reNewlines [0x0A] s'"
proof (cases s')
  case Nil
  then show ?thesis by (simp only: collapse_Nil dropWhile.simps)
next
  case (Cons d ds)
  with assms have "d \<noteq> 0x0A" using dropWhile_Cons_hd [of "\<lambda>x. x = 0x0A" cs d ds] by simp
  with Cons show ?thesis by (simp only: collapse_Cons dropWhile.simps if_False)
qed

lemma collapse_idem:
  "replaceAll reNewlines [0x0A] (replaceAll reNewlines [0x0A] s) = replaceAll reNewlines [0x0A] s"
proof (induction "length s" arbitrary: s rule: less_induct)
  case less
  show ?case
  proof (cases s)
    case Nil
    then show ?thesis by (simp only: collapse_Nil)
  next
    case (Cons c cs)
    show ?thesis
    proof (cases "c = 0x0A")
      case False
      have "length cs < length s" using Cons by simp
      then have "replaceAll reNewlines [0x0A] (replaceAll reNewlines [0x0A] cs)
                 = replaceAll reNewlines [0x0A] cs" by (rule less)
      with False Cons show ?thesis by (simp only: collapse_Cons if_False)
    next
      case True
      define s' where "s' = dropWhile (\<lambda>x. x = 0x0A) cs"
      have "length s' \<le> length cs" unfolding s'_def by (rule length_dropWhile_le)
      then have len: "length s' < length s" using Cons by simp
      have idem: "replaceAll reNewlines [0x0A] (replaceAll reNewlines [0x0A] s')
                  = replaceAll reNewlines [0x0A] s'" using len by (rule less)
      have keep: "dropWhile (\<lambda>x. x = 0x0A) (replaceAll reNewlines [0x0A] s')
                  = replaceAll reNewlines [0x0A] s'"
        using s'_def by (rule collapse_keep)
      have one: "replaceAll reNewlines [0x0A] s = 0x0A # replaceAll reNewlines [0x0A] s'"
        unfolding Cons True s'_def by (simp only: collapse_Cons simp_thms if_True)
      have "replaceAll reNewlines [0x0A] (0x0A # replaceAll reNewlines [0x0A] s')
            = 0x0A # replaceAll reNewlines [0x0A]
                       (dropWhile (\<lambda>x. x = 0x0A) (replaceAll reNewlines [0x0A] s'))"
        by (simp only: collapse_Cons simp_thms if_True)
      then show ?thesis unfolding one keep idem .
    qed
  qed
qed

lemma replaceAll_no_match: "\<not> hasMatch r s \<Longrightarrow> replaceAll r rep s = s"
  by (induction s) auto

text \<open>
  C4, as amended. \<open>cleanText\<close> applied twice gives the same as applied once whenever the
  result of the first application holds no highlight marker and no heading block, that
  is, whenever removing text did not put a new marker or block together.
\<close>

theorem cleanText_idempotent_when_clean:
  assumes "\<not> hasMatch reMarkers (cleanText text)" and "\<not> hasMatch reH4 (cleanText text)"
  shows "cleanText (cleanText text) = cleanText text"
proof -
  have m: "replaceAll reMarkers [] (cleanText text) = cleanText text"
    using assms(1) by (rule replaceAll_no_match)
  have h: "replaceAll reH4 [] (cleanText text) = cleanText text"
    using assms(2) by (rule replaceAll_no_match)
  have "cleanText (cleanText text) = replaceAll reNewlines [0x0A] (cleanText text)"
    unfolding cleanText_def [of "cleanText text"] m h ..
  also have "\<dots> = cleanText text"
    unfolding cleanText_def by (rule collapse_idem)
  finally show ?thesis .
qed

theorem cleanText_idempotent_when_clean_witness:
  "\<not> hasMatch reMarkers (cleanText highlighted) \<and> \<not> hasMatch reH4 (cleanText highlighted)
   \<and> cleanText highlighted = [0xB274, 0xC2A4, 0x0A, 0xB0B4, 0xC6A9]
   \<and> cleanText (cleanText highlighted) = cleanText highlighted"
proof -
  have v: "cleanText highlighted = [0xB274, 0xC2A4, 0x0A, 0xB0B4, 0xC6A9]"
    by code_simp
  have h1: "\<not> hasMatch reMarkers (cleanText highlighted)"
    unfolding v by code_simp
  have h2: "\<not> hasMatch reH4 (cleanText highlighted)"
    unfolding v by code_simp
  from cleanText_idempotent_when_clean [OF h1 h2] h1 h2 v show ?thesis by simp
qed

text \<open>
  C4 as stated fails: removing the marker inside \<open><!<!HS>HS>\<close> leaves the marker
  \<open><!HS>\<close>, which a second application removes.
\<close>

theorem cleanText_not_idempotent:
  "cleanText (lit ''<!<!HS>HS>'') = lit ''<!HS>'' \<and> cleanText (lit ''<!HS>'') = []
   \<and> cleanText (cleanText (lit ''<!<!HS>HS>'')) \<noteq> cleanText (lit ''<!<!HS>HS>'')"
proof -
  have a: "cleanText (lit ''<!<!HS>HS>'') = lit ''<!HS>''" by code_simp
  have b: "cleanText (lit ''<!HS>'') = []" by code_simp
  have c: "lit ''<!HS>'' \<noteq> []" by (simp add: lit_def)
  from a b c show ?thesis by simp
qed

subsection \<open>Keyword formatting\<close>

lemma matchAlt_reSpaces:
  "matchAlt reSpaces (c # cs) = (if isWhiteSpace c then Some (dropWhile isWhiteSpace cs) else None)"
  unfolding reSpaces_def by (rule matchAlt_Plus)

lemma splitLoop_reSpaces_Cons:
  "splitLoop reSpaces tok (c # cs) =
     (if isWhiteSpace c then tok # splitLoop reSpaces [] (dropWhile isWhiteSpace cs)
      else splitLoop reSpaces (tok @ [c]) cs)"
  by (simp add: matchAlt_reSpaces length_dropWhile_le)

lemma replaceAll_reComma: "replaceAll reComma [] s = removeCommas s"
  by (induction s) (simp_all add: reComma_def removeCommas_def)

lemma tokens_Nil: "tokens [] = []"
  by (simp add: tokens.simps)

lemma tokens_ws: "isWhiteSpace c \<Longrightarrow> tokens (c # cs) = tokens cs"
  by (simp add: tokens.simps [of "c # cs"] tokens.simps [of cs])

lemma tokens_nonws:
  "\<not> isWhiteSpace c \<Longrightarrow>
     tokens (c # cs) = (c # takeWhile (\<lambda>x. \<not> isWhiteSpace x) cs)
                       # tokens (dropWhile (\<lambda>x. \<not> isWhiteSpace x) cs)"
  by (simp add: tokens.simps [of "c # cs"])

lemma tokens_all_ws: "\<forall>x \<in> set w. isWhiteSpace x \<Longrightarrow> tokens w = []"
  by (induction w) (simp_all add: tokens_Nil tokens_ws)

lemma dropWhile_all: "\<forall>x \<in> set xs. P x \<Longrightarrow> dropWhile P xs = []"
  by simp

lemma takeWhile_all: "\<forall>x \<in> set xs. P x \<Longrightarrow> takeWhile P xs = xs"
  by simp

lemma tokens_wsfree:
  assumes "\<forall>x \<in> set tok. \<not> isWhiteSpace x"
  shows "tokens tok = (if tok = [] then [] else [tok])"
proof (cases tok)
  case Nil
  then show ?thesis by (simp add: tokens_Nil)
next
  case (Cons t ts)
  with assms have "\<not> isWhiteSpace t" and ts: "\<forall>x \<in> set ts. \<not> isWhiteSpace x" by simp_all
  then show ?thesis using Cons by (simp add: tokens_nonws tokens_Nil dropWhile_all takeWhile_all)
qed

lemma tokens_tok_ws:
  assumes "\<forall>x \<in> set tok. \<not> isWhiteSpace x" and "isWhiteSpace c"
  shows "tokens (tok @ c # cs) = (if tok = [] then [] else [tok]) @ tokens cs"
proof (cases tok)
  case Nil
  with assms(2) show ?thesis by (simp add: tokens_ws)
next
  case (Cons t ts)
  with assms have t: "\<not> isWhiteSpace t" and ts: "\<forall>x \<in> set ts. \<not> isWhiteSpace x" by simp_all
  have "tokens (t # (ts @ c # cs)) = (t # ts) # tokens (c # cs)"
    using t ts assms(2) by (simp add: tokens_nonws)
  with Cons assms(2) show ?thesis by (simp add: tokens_ws)
qed

lemma dropWhile_wsfree: "\<forall>x \<in> set t. \<not> isWhiteSpace x \<Longrightarrow> dropWhile isWhiteSpace t = t"
  by (cases t) simp_all

lemma trim_wsfree: "\<forall>x \<in> set t. \<not> isWhiteSpace x \<Longrightarrow> trim t = t"
  by (simp add: trim_def dropWhile_wsfree)

lemma filtered_split:
  "\<forall>x \<in> set tok. \<not> isWhiteSpace x \<Longrightarrow>
     filter (\<lambda>w. trim w \<noteq> []) (splitLoop reSpaces tok s) = tokens (tok @ s)"
proof (induction "length s" arbitrary: s tok rule: less_induct)
  case less
  show ?case
  proof (cases s)
    case Nil
    with less.prems show ?thesis by (simp add: trim_wsfree tokens_wsfree)
  next
    case (Cons c cs)
    show ?thesis
    proof (cases "isWhiteSpace c")
      case True
      define s' where "s' = dropWhile isWhiteSpace cs"
      have "length s' \<le> length cs" unfolding s'_def by (rule length_dropWhile_le)
      then have "length s' < length s" using Cons by simp
      then have "filter (\<lambda>w. trim w \<noteq> []) (splitLoop reSpaces [] s') = tokens ([] @ s')"
        by (rule less.hyps) simp
      moreover have "tokens s' = tokens cs"
        unfolding s'_def by (induction cs) (simp_all add: tokens_ws)
      moreover have "splitLoop reSpaces tok s = tok # splitLoop reSpaces [] s'"
        unfolding Cons s'_def using True by (simp only: splitLoop_reSpaces_Cons if_True)
      ultimately show ?thesis
        using less.prems True Cons by (simp add: trim_wsfree tokens_tok_ws)
    next
      case False
      have "length cs < length s" using Cons by simp
      moreover have "\<forall>x \<in> set (tok @ [c]). \<not> isWhiteSpace x" using less.prems False by simp
      ultimately have "filter (\<lambda>w. trim w \<noteq> []) (splitLoop reSpaces (tok @ [c]) cs)
                       = tokens ((tok @ [c]) @ cs)"
        by (rule less.hyps)
      moreover have "splitLoop reSpaces tok s = splitLoop reSpaces (tok @ [c]) cs"
        unfolding Cons using False by (simp only: splitLoop_reSpaces_Cons if_False)
      ultimately show ?thesis using Cons by simp
    qed
  qed
qed

lemma tokens_dropWhile: "tokens (dropWhile isWhiteSpace s) = tokens s"
  by (induction s) (simp_all add: tokens_ws)

lemma tokens_append_ws:
  "\<forall>x \<in> set w. isWhiteSpace x \<Longrightarrow> tokens (v @ w) = tokens v"
proof (induction "length v" arbitrary: v rule: less_induct)
  case less
  show ?case
  proof (cases v)
    case Nil
    with less.prems show ?thesis by (simp add: tokens_all_ws tokens_Nil)
  next
    case (Cons c cs)
    show ?thesis
    proof (cases "isWhiteSpace c")
      case True
      have "tokens (cs @ w) = tokens cs" using less.hyps [of cs] less.prems Cons by simp
      with True Cons show ?thesis by (simp add: tokens_ws)
    next
      case False
      show ?thesis
      proof (cases "\<forall>x \<in> set cs. \<not> isWhiteSpace x")
        case True
        have "takeWhile (\<lambda>x. \<not> isWhiteSpace x) w = []" using less.prems by (cases w) simp_all
        moreover have "dropWhile (\<lambda>x. \<not> isWhiteSpace x) w = w" using less.prems by (cases w) simp_all
        ultimately show ?thesis
          using True False Cons less.prems
          by (simp add: tokens_nonws tokens_all_ws tokens_Nil dropWhile_all takeWhile_all)
      next
        case mixed: False
        then obtain x where x: "x \<in> set cs" "\<not> \<not> isWhiteSpace x" by blast
        have tk: "takeWhile (\<lambda>x. \<not> isWhiteSpace x) (cs @ w) = takeWhile (\<lambda>x. \<not> isWhiteSpace x) cs"
          using x by (rule takeWhile_append1)
        have dr: "dropWhile (\<lambda>x. \<not> isWhiteSpace x) (cs @ w)
                  = dropWhile (\<lambda>x. \<not> isWhiteSpace x) cs @ w"
          using x by (rule dropWhile_append1)
        have "length (dropWhile (\<lambda>x. \<not> isWhiteSpace x) cs) < length v"
          using Cons length_dropWhile_le [of "\<lambda>x. \<not> isWhiteSpace x" cs] by simp
        then have "tokens (dropWhile (\<lambda>x. \<not> isWhiteSpace x) cs @ w)
                   = tokens (dropWhile (\<lambda>x. \<not> isWhiteSpace x) cs)"
          using less.prems by (rule less.hyps)
        with False Cons tk dr show ?thesis by (simp add: tokens_nonws)
      qed
    qed
  qed
qed

lemma tokens_trim: "tokens (trim s) = tokens s"
proof -
  define u where "u = dropWhile isWhiteSpace s"
  have "rev u = takeWhile isWhiteSpace (rev u) @ dropWhile isWhiteSpace (rev u)"
    by simp
  then have "rev (rev u) = rev (takeWhile isWhiteSpace (rev u) @ dropWhile isWhiteSpace (rev u))"
    by (rule arg_cong)
  then have u: "u = rev (dropWhile isWhiteSpace (rev u)) @ rev (takeWhile isWhiteSpace (rev u))"
    by (simp only: rev_rev_ident rev_append)
  have "\<forall>x \<in> set (rev (takeWhile isWhiteSpace (rev u))). isWhiteSpace x"
    by (auto dest: set_takeWhileD)
  then have "tokens (rev (dropWhile isWhiteSpace (rev u)) @ rev (takeWhile isWhiteSpace (rev u)))
             = tokens (rev (dropWhile isWhiteSpace (rev u)))"
    by (rule tokens_append_ws)
  with u have "tokens (rev (dropWhile isWhiteSpace (rev u))) = tokens u" by simp
  then show ?thesis by (simp add: trim_def u_def tokens_dropWhile)
qed

lemma trim_ends:
  "trim s = [] \<or> (\<not> isWhiteSpace (hd (trim s)) \<and> \<not> isWhiteSpace (last (trim s)))"
proof (cases "trim s = []")
  case True
  then show ?thesis by simp
next
  case False
  define u where "u = dropWhile isWhiteSpace s"
  define r where "r = dropWhile isWhiteSpace (rev u)"
  have t: "trim s = rev r" by (simp add: trim_def u_def r_def)
  with False have rne: "r \<noteq> []" by simp
  then have "\<not> isWhiteSpace (hd r)" unfolding r_def by (metis hd_dropWhile)
  then have l: "\<not> isWhiteSpace (last (trim s))" using rne t by (simp add: last_rev)
  have une: "u \<noteq> []" using rne unfolding r_def by auto
  then have hu: "\<not> isWhiteSpace (hd u)" unfolding u_def by (metis hd_dropWhile)
  have "rev u = takeWhile isWhiteSpace (rev u) @ r" unfolding r_def by simp
  then have "rev (rev u) = rev (takeWhile isWhiteSpace (rev u) @ r)" by (rule arg_cong)
  then have "u = rev r @ rev (takeWhile isWhiteSpace (rev u))"
    by (simp only: rev_rev_ident rev_append)
  then have "hd u = hd (rev r)" using rne by (metis hd_append2 rev_is_Nil_conv)
  with hu t have "\<not> isWhiteSpace (hd (trim s))" by simp
  with l show ?thesis by blast
qed

lemma trimmed_split:
  "\<forall>x \<in> set tok. \<not> isWhiteSpace x \<Longrightarrow> s = [] \<or> \<not> isWhiteSpace (last s) \<Longrightarrow>
     splitLoop reSpaces tok s =
       (tok @ takeWhile (\<lambda>x. \<not> isWhiteSpace x) s) # tokens (dropWhile (\<lambda>x. \<not> isWhiteSpace x) s)"
proof (induction "length s" arbitrary: s tok rule: less_induct)
  case less
  show ?case
  proof (cases s)
    case Nil
    then show ?thesis by (simp add: tokens_Nil)
  next
    case (Cons c cs)
    show ?thesis
    proof (cases "isWhiteSpace c")
      case True
      define s' where "s' = dropWhile isWhiteSpace cs"
      from less.prems(2) Cons True have cs: "cs \<noteq> []" and lastcs: "\<not> isWhiteSpace (last cs)"
        by (auto split: if_splits)
      then have "\<not> (\<forall>x \<in> set cs. isWhiteSpace x)" using last_in_set by blast
      then have s'ne: "s' \<noteq> []" unfolding s'_def by simp
      then obtain d ds where dds: "s' = d # ds" by (cases s') auto
      then have d: "\<not> isWhiteSpace d" unfolding s'_def by (rule dropWhile_Cons_hd)
      have "cs = takeWhile isWhiteSpace cs @ s'" unfolding s'_def by simp
      then have "last cs = last s'" using s'ne by (metis last_appendR)
      with lastcs have last': "s' = [] \<or> \<not> isWhiteSpace (last s')" by simp
      have "length s' \<le> length cs" unfolding s'_def by (rule length_dropWhile_le)
      then have "length s' < length s" using Cons by simp
      then have "splitLoop reSpaces [] s' =
                   ([] @ takeWhile (\<lambda>x. \<not> isWhiteSpace x) s')
                   # tokens (dropWhile (\<lambda>x. \<not> isWhiteSpace x) s')"
        using _ last' by (rule less.hyps) simp
      then have "splitLoop reSpaces [] s' = tokens s'"
        using d dds by (simp add: tokens_nonws)
      moreover have "tokens s' = tokens cs" unfolding s'_def by (rule tokens_dropWhile)
      moreover have "splitLoop reSpaces tok s = tok # splitLoop reSpaces [] s'"
        unfolding Cons s'_def using True by (simp only: splitLoop_reSpaces_Cons if_True)
      ultimately show ?thesis using True Cons by (simp add: tokens_ws)
    next
      case False
      have "length cs < length s" using Cons by simp
      moreover have "\<forall>x \<in> set (tok @ [c]). \<not> isWhiteSpace x" using less.prems False by simp
      moreover have "cs = [] \<or> \<not> isWhiteSpace (last cs)"
        using less.prems(2) Cons by (auto split: if_splits)
      ultimately have "splitLoop reSpaces (tok @ [c]) cs =
          ((tok @ [c]) @ takeWhile (\<lambda>x. \<not> isWhiteSpace x) cs)
          # tokens (dropWhile (\<lambda>x. \<not> isWhiteSpace x) cs)"
        by (rule less.hyps)
      moreover have "splitLoop reSpaces tok s = splitLoop reSpaces (tok @ [c]) cs"
        unfolding Cons using False by (simp only: splitLoop_reSpaces_Cons if_False)
      ultimately show ?thesis using Cons False by simp
    qed
  qed
qed

lemma split_trim: "split reSpaces (trim s) = (if trim s = [] then [[]] else tokens s)"
proof (cases "trim s")
  case Nil
  then show ?thesis by (simp add: split_def reSpaces_def)
next
  case (Cons c cs)
  with trim_ends [of s] have c: "\<not> isWhiteSpace c" and l: "\<not> isWhiteSpace (last (trim s))"
    by simp_all
  have "splitLoop reSpaces [] (trim s) =
          ([] @ takeWhile (\<lambda>x. \<not> isWhiteSpace x) (trim s))
          # tokens (dropWhile (\<lambda>x. \<not> isWhiteSpace x) (trim s))"
    using l by (intro trimmed_split) simp_all
  then have "splitLoop reSpaces [] (trim s) = tokens (trim s)"
    using c Cons by (simp add: tokens_nonws del: splitLoop.simps)
  then have "splitLoop reSpaces [] (trim s) = tokens s"
    by (simp only: tokens_trim)
  moreover have "split reSpaces (trim s) = splitLoop reSpaces [] (trim s)"
    using Cons by (simp add: split_def del: splitLoop.simps)
  moreover have "trim s \<noteq> []" using Cons by simp
  ultimately show ?thesis by simp
qed

lemma tokens_elem:
  "t \<in> set (tokens s) \<Longrightarrow> t \<noteq> [] \<and> (\<forall>x \<in> set t. \<not> isWhiteSpace x) \<and> set t \<subseteq> set s"
proof (induction s arbitrary: t rule: tokens.induct)
  case (1 s)
  show ?case
  proof (cases "dropWhile isWhiteSpace s")
    case Nil
    with "1.prems" show ?thesis by (simp add: tokens.simps [of s])
  next
    case (Cons c cs)
    then have c: "\<not> isWhiteSpace c" by (rule dropWhile_Cons_hd)
    have sub: "set (c # cs) \<subseteq> set s" using Cons by (metis set_dropWhileD subsetI)
    from "1.prems" Cons
    consider "t = c # takeWhile (\<lambda>x. \<not> isWhiteSpace x) cs"
      | "t \<in> set (tokens (dropWhile (\<lambda>x. \<not> isWhiteSpace x) cs))"
      by (auto simp: tokens.simps [of s])
    then show ?thesis
    proof cases
      case 1
      then show ?thesis using c sub by (auto dest: set_takeWhileD)
    next
      case 2
      from "1.IH" [OF Cons 2] sub show ?thesis by (auto dest: set_dropWhileD)
    qed
  qed
qed

text \<open>
  What the two versions of \<open>formatKeywords\<close> compute. The one of
  \<open>src/unnamed/part_001\<close> returns the first two whitespace-separated tokens of the input
  without its commas, joined by one space; the one of \<open>src/app.js\<close> returns the first two
  whitespace-separated tokens of the input as it is, commas included, joined by one
  space. A token is not empty and holds no white space, so neither result has white space
  around it.
\<close>

lemma formatKeywords_tokens:
  "formatKeywords_p1 keywords = join (lit '' '') (take 2 (tokens (removeCommas keywords)))
   \<and> formatKeywords_app keywords = join (lit '' '') (take 2 (tokens keywords))
   \<and> (\<forall>t \<in> set (tokens (removeCommas keywords)).
         t \<noteq> [] \<and> 0x2C \<notin> set t \<and> (\<forall>c \<in> set t. \<not> isWhiteSpace c))
   \<and> (\<forall>t \<in> set (tokens keywords). t \<noteq> [] \<and> (\<forall>c \<in> set t. \<not> isWhiteSpace c))"
proof -
  have p1: "formatKeywords_p1 keywords = join (lit '' '') (take 2 (tokens (removeCommas keywords)))"
  proof (cases "trim (removeCommas keywords) = []")
    case True
    then have "tokens (removeCommas keywords) = []"
      using tokens_trim [of "removeCommas keywords"] by (simp add: tokens_Nil)
    moreover have "split reSpaces (trim (removeCommas keywords)) = [[]]"
      unfolding split_trim using True by simp
    ultimately show ?thesis
      by (simp add: formatKeywords_p1_def replaceAll_reComma)
  next
    case False
    then have "split reSpaces (trim (removeCommas keywords)) = tokens (removeCommas keywords)"
      unfolding split_trim by simp
    then show ?thesis by (simp add: formatKeywords_p1_def replaceAll_reComma)
  qed
  have app: "formatKeywords_app keywords = join (lit '' '') (take 2 (tokens keywords))"
  proof (cases "keywords")
    case Nil
    then show ?thesis
      by (simp add: formatKeywords_app_def split_def reSpaces_def tokens_Nil trim_def)
  next
    case (Cons c cs)
    have "filter (\<lambda>w. trim w \<noteq> []) (splitLoop reSpaces [] keywords) = tokens ([] @ keywords)"
      by (rule filtered_split) simp
    with Cons show ?thesis by (simp add: formatKeywords_app_def split_def)
  qed
  have "0x2C \<notin> set (removeCommas keywords)" by (simp add: removeCommas_def)
  then have e1: "\<forall>t \<in> set (tokens (removeCommas keywords)).
         t \<noteq> [] \<and> 0x2C \<notin> set t \<and> (\<forall>c \<in> set t. \<not> isWhiteSpace c)"
    using tokens_elem [of _ "removeCommas keywords"] by blast
  have e2: "\<forall>t \<in> set (tokens keywords). t \<noteq> [] \<and> (\<forall>c \<in> set t. \<not> isWhiteSpace c)"
    using tokens_elem [of _ "keywords"] by blast
  from p1 app e1 e2 show ?thesis by (intro conjI)
qed

lemma formatKeywords_tokens_example:
  "tokens (removeCommas samsung) = [[0xC0BC, 0xC131], [0xC804, 0xC790]]
   \<and> formatKeywords_p1 samsung = [0xC0BC, 0xC131, 0x20, 0xC804, 0xC790]
   \<and> 0x2C \<notin> set (formatKeywords_p1 samsung)
   \<and> tokens (lit ''   single   '') = [lit ''single'']
   \<and> formatKeywords_app (lit ''   single   '') = lit ''single''"
proof -
  have t1: "tokens (removeCommas samsung) = [[0xC0BC, 0xC131], [0xC804, 0xC790]]"
    by code_simp
  have t2: "tokens (lit ''   single   '') = [lit ''single'']"
    by code_simp
  from formatKeywords_tokens [of samsung]
  have "formatKeywords_p1 samsung = join (lit '' '') (take 2 (tokens (removeCommas samsung)))"
    by (rule conjunct1)
  then have p1: "formatKeywords_p1 samsung = [0xC0BC, 0xC131, 0x20, 0xC804, 0xC790]"
    unfolding t1 by (simp add: lit_def)
  from formatKeywords_tokens [of "lit ''   single   ''"]
  have "formatKeywords_app (lit ''   single   '')
        = join (lit '' '') (take 2 (tokens (lit ''   single   '')))"
    by blast
  then have app: "formatKeywords_app (lit ''   single   '') = lit ''single''"
    unfolding t2 by simp
  have c: "0x2C \<notin> set (formatKeywords_p1 samsung)"
    unfolding p1 by simp
  from t1 p1 c t2 app show ?thesis by (intro conjI)
qed

text \<open>
  C3. \<open>formatKeywords\<close> is to return at most two whitespace-separated tokens with all
  commas removed, trimmed and joined by one space; \<open>formatKeywords\<close> of
  \<open>src/unnamed/part_001\<close> does. \<open>formatKeywords\<close> of \<open>src/app.js\<close> removes no comma: on the
  example of the specification it returns its input, comma included, where the one of
  \<open>src/unnamed/part_001\<close> returns the two words with one space between them.
\<close>

theorem formatKeywords_app_keeps_commas:
  "formatKeywords_app samsung = samsung
   \<and> 0x2C \<in> set (formatKeywords_app samsung)
   \<and> formatKeywords_p1 samsung = [0xC0BC, 0xC131, 0x20, 0xC804, 0xC790]"
proof -
  have a: "formatKeywords_app samsung = samsung" by code_simp
  have "0x2C \<in> set samsung" by (simp add: samsung_def)
  with a have b: "0x2C \<in> set (formatKeywords_app samsung)" by simp
  have c: "formatKeywords_p1 samsung = [0xC0BC, 0xC131, 0x20, 0xC804, 0xC790]" by code_simp
  from a b c show ?thesis by (intro conjI)
qed

end
